theory Spec2Isabelle
  imports Main "HOL-Library.Word"
begin

unbundle bit_operations_syntax

section \<open>Go values used by template.go\<close>

text \<open>
  A Go \<open>string\<close> is a sequence of bytes; it is modelled as a \<open>char list\<close> (an Isabelle
  \<open>char\<close> is one byte), so \<open>length\<close> is Go's \<open>len\<close>.

  A Go \<open>error\<close> value is either the one this file builds with \<open>fmt.Errorf\<close>, or an
  error handed back by a collaborator (\<open>net/http\<close>, \<open>io/ioutil\<close>, \<open>html/template\<close>),
  whose text is kept as it is.

  A run-time panic (a slice expression out of range, a failed type assertion
  \<open>v.(T)\<close>) is the left summand of \<open>panic + 'a\<close>.
\<close>

datatype error = Errorf string | External string

datatype panic = SliceBoundsOutOfRange | InterfaceConversion

definition bind_p :: "panic + 'a \<Rightarrow> ('a \<Rightarrow> panic + 'b) \<Rightarrow> panic + 'b" where
  "bind_p x f = (case x of Inl p \<Rightarrow> Inl p | Inr v \<Rightarrow> f v)"

text \<open>The slice expressions \<open>s[:n]\<close> and \<open>s[n:]\<close> on an \<open>int\<close> index: out of range panics.\<close>

definition slice_to :: "string \<Rightarrow> int \<Rightarrow> panic + string" where
  "slice_to s n =
     (if 0 \<le> n \<and> n \<le> int (length s) then Inr (take (nat n) s) else Inl SliceBoundsOutOfRange)"

definition slice_from :: "string \<Rightarrow> int \<Rightarrow> panic + string" where
  "slice_from s n =
     (if 0 \<le> n \<and> n \<le> int (length s) then Inr (drop (nat n) s) else Inl SliceBoundsOutOfRange)"

text \<open>\<open>strings.HasPrefix(s, prefix)\<close>: \<open>len(s) >= len(prefix) && s[0:len(prefix)] == prefix\<close>.\<close>

definition HasPrefix :: "string \<Rightarrow> string \<Rightarrow> bool" where
  "HasPrefix s pre = (length pre \<le> length s \<and> take (length pre) s = pre)"

text \<open>
  \<open>strings.Index(s, substr)\<close>: the position of the first occurrence of \<open>substr\<close>
  in \<open>s\<close>; Go's \<open>-1\<close> is \<open>None\<close>.
\<close>

fun Index :: "string \<Rightarrow> string \<Rightarrow> nat option" where
  "Index [] sub = (if sub = [] then Some 0 else None)"
| "Index (c # cs) sub =
     (if HasPrefix (c # cs) sub then Some 0 else map_option Suc (Index cs sub))"

text \<open>\<open>strings.Replace(s, old, new, 1)\<close>: the first occurrence of \<open>old\<close> is replaced.\<close>

definition Replace_first :: "string \<Rightarrow> string \<Rightarrow> string \<Rightarrow> string" where
  "Replace_first s old new =
     (case Index s old of
        None \<Rightarrow> s
      | Some j \<Rightarrow> take j s @ new @ drop (j + length old) s)"

text \<open>
  \<open>strings.Split(s, sep)\<close>: the pieces of \<open>s\<close> between the occurrences of \<open>sep\<close>,
  found from the left with \<open>Index\<close>. With an empty separator Go cuts after every
  character; template.go never passes one, and the model cuts after every byte there.
\<close>

function Split :: "string \<Rightarrow> string \<Rightarrow> string list" where
  "Split s sep =
     (if sep = [] then map (\<lambda>c. [c]) s
      else case Index s sep of
             None \<Rightarrow> [s]
           | Some m \<Rightarrow> take m s # Split (drop (m + length sep) s) sep)"
  by pat_completeness auto
termination
proof (relation "measure (\<lambda>(s, sep). length s)")
  show "wf (measure (\<lambda>(s, sep). length s))" by simp
next
  fix s sep :: string and m :: nat
  assume "sep \<noteq> []" and "Index s sep = Some m"
  then have "s \<noteq> []" by (cases s) auto
  with \<open>sep \<noteq> []\<close>
  show "((drop (m + length sep) s, sep), (s, sep)) \<in> measure (\<lambda>(s, sep). length s)"
    by (cases sep) auto
qed

declare Split.simps [simp del]

section \<open>The regular expression of the hash suffix\<close>

text \<open>
  \<open>regexp.MustCompile(`.*@[a-f0-9]{32}$`)\<close> and \<open>re.MatchString(input)\<close>. The pattern
  is a sequence of four items: a starred character class, a single character, a counted
  repetition of a class, and the end-of-text assertion (\<open>$\<close> without the \<open>m\<close> flag).
  \<open>MatchString\<close> reports whether the text contains any match, so the search is tried
  from every start position. The matcher works on bytes: the classes \<open>@\<close> and
  \<open>[a-f0-9]\<close> are ASCII, and \<open>.\<close> (any character but newline, no \<open>s\<close> flag) accepts
  every byte of a multi-byte character since none of them is the newline byte.
\<close>

type_synonym cclass = "char \<Rightarrow> bool"

datatype re_item = Star cclass | One cclass | Rep cclass nat | EndText

fun match_here :: "re_item list \<Rightarrow> string \<Rightarrow> bool" where
  "match_here [] s = True"
| "match_here (EndText # r) s = (s = [] \<and> match_here r s)"
| "match_here (One p # r) [] = False"
| "match_here (One p # r) (c # cs) = (p c \<and> match_here r cs)"
| "match_here (Rep p 0 # r) s = match_here r s"
| "match_here (Rep p (Suc n) # r) [] = False"
| "match_here (Rep p (Suc n) # r) (c # cs) = (p c \<and> match_here (Rep p n # r) cs)"
| "match_here (Star p # r) [] = match_here r []"
| "match_here (Star p # r) (c # cs) =
     (match_here r (c # cs) \<or> (p c \<and> match_here (Star p # r) cs))"

fun MatchString :: "re_item list \<Rightarrow> string \<Rightarrow> bool" where
  "MatchString re [] = match_here re []"
| "MatchString re (c # cs) = (match_here re (c # cs) \<or> MatchString re cs)"

definition in_range :: "char \<Rightarrow> char \<Rightarrow> cclass" where
  "in_range lo hi c = ((of_char lo :: nat) \<le> of_char c \<and> (of_char c :: nat) \<le> of_char hi)"

definition any_char_not_nl :: cclass where
  "any_char_not_nl c = (c \<noteq> CHR 0x0A)"

definition lit :: "char \<Rightarrow> cclass" where
  "lit a c = (c = a)"

definition lower_hex :: cclass where
  "lower_hex c = (in_range CHR ''a'' CHR ''f'' c \<or> in_range CHR ''0'' CHR ''9'' c)"

definition hash_re :: "re_item list" where
  "hash_re = [Star any_char_not_nl, One (lit CHR ''@''), Rep lower_hex 32, EndText]"

section \<open>ConfigXMLTemplate and NewConfigXMLTemplate\<close>

record ConfigXMLTemplate =
  source :: string
  data :: string
  hash :: string

text \<open>
  The collaborators of the resolver. \<open>http_Get url\<close> is \<open>http.Get\<close> followed by
  \<open>ioutil.ReadAll\<close> on the response body: \<open>Inl e\<close> when the connection fails,
  \<open>Inr (Inl e)\<close> when reading the body fails, \<open>Inr (Inr body)\<close> otherwise.
  \<open>ReadFile path\<close> is \<open>ioutil.ReadFile\<close>. The calls made are recorded, in order.
  The \<open>log.Printf\<close> lines are diagnostics and are left out.
\<close>

record world =
  http_Get :: "string \<Rightarrow> error + (error + string)"
  ReadFile :: "string \<Rightarrow> error + string"

datatype io_call = HttpGet string | FileRead string

text \<open>Lines 34 to 40: the candidate \<open>source\<close> and the recorded hash.\<close>

definition split_hash :: "string \<Rightarrow> panic + (string \<times> string)" where
  "split_hash input =
     (if MatchString hash_re input then
        bind_p (slice_to input (int (length input) - 33)) (\<lambda>src.
        bind_p (slice_from input (int (length input) - 32)) (\<lambda>h.
        Inr (src, h)))
      else Inr (input, ''''))"

text \<open>
  Lines 42 to 72. The result is Go's pair \<open>(*ConfigXMLTemplate, error)\<close>: a pointer
  that may be \<open>nil\<close> (\<open>None\<close>) and an error that may be \<open>nil\<close> (\<open>None\<close>).
\<close>

definition fetch :: "world \<Rightarrow> string \<Rightarrow> string \<Rightarrow>
    (ConfigXMLTemplate option \<times> error option) \<times> io_call list" where
  "fetch w src h =
     (if HasPrefix src ''http://'' \<or> HasPrefix src ''https://'' then
        (case http_Get w src of
           Inl err \<Rightarrow> ((None, Some err), [HttpGet src])
         | Inr (Inl err) \<Rightarrow> ((None, Some err), [HttpGet src])
         | Inr (Inr body) \<Rightarrow>
             ((Some \<lparr>source = src, data = body, hash = h\<rparr>, None), [HttpGet src]))
      else if HasPrefix src ''file://'' then
        (let from = Replace_first src ''file://'' '''' in
         case ReadFile w from of
           Inl err \<Rightarrow> ((None, Some err), [FileRead from])
         | Inr body \<Rightarrow>
             ((Some \<lparr>source = src, data = body, hash = h\<rparr>, None), [FileRead from]))
      else ((Some \<lparr>source = '''', data = src, hash = h\<rparr>, None), []))"

definition NewConfigXMLTemplate :: "world \<Rightarrow> string \<Rightarrow>
    panic + ((ConfigXMLTemplate option \<times> error option) \<times> io_call list)" where
  "NewConfigXMLTemplate w input =
     bind_p (split_hash input) (\<lambda>(src, h). Inr (fetch w src h))"

section \<open>The content digest: crypto/md5 and encoding/hex\<close>

text \<open>
  \<open>md5.Sum\<close> is the MD5 function of RFC 1321 on the bytes of its argument; its result
  type is \<open>[16]byte\<close>. The state is four 32-bit words; the message is padded with the
  byte \<open>0x80\<close>, zero bytes up to 56 modulo 64, and the length in bits as a 64-bit
  little-endian number, and then consumed in blocks of 64 bytes.
\<close>

type_synonym byte = "8 word"
type_synonym u32 = "32 word"
type_synonym u64 = "64 word"

definition md5_shifts :: "nat list" where
  "md5_shifts =
     [7, 12, 17, 22, 7, 12, 17, 22, 7, 12, 17, 22, 7, 12, 17, 22,
      5, 9, 14, 20, 5, 9, 14, 20, 5, 9, 14, 20, 5, 9, 14, 20,
      4, 11, 16, 23, 4, 11, 16, 23, 4, 11, 16, 23, 4, 11, 16, 23,
      6, 10, 15, 21, 6, 10, 15, 21, 6, 10, 15, 21, 6, 10, 15, 21]"

definition md5_K :: "u32 list" where
  "md5_K =
     [0xd76aa478, 0xe8c7b756, 0x242070db, 0xc1bdceee,
      0xf57c0faf, 0x4787c62a, 0xa8304613, 0xfd469501,
      0x698098d8, 0x8b44f7af, 0xffff5bb1, 0x895cd7be,
      0x6b901122, 0xfd987193, 0xa679438e, 0x49b40821,
      0xf61e2562, 0xc040b340, 0x265e5a51, 0xe9b6c7aa,
      0xd62f105d, 0x02441453, 0xd8a1e681, 0xe7d3fbc8,
      0x21e1cde6, 0xc33707d6, 0xf4d50d87, 0x455a14ed,
      0xa9e3e905, 0xfcefa3f8, 0x676f02d9, 0x8d2a4c8a,
      0xfffa3942, 0x8771f681, 0x6d9d6122, 0xfde5380c,
      0xa4beea44, 0x4bdecfa9, 0xf6bb4b60, 0xbebfbc70,
      0x289b7ec6, 0xeaa127fa, 0xd4ef3085, 0x04881d05,
      0xd9d4d039, 0xe6db99e5, 0x1fa27cf8, 0xc4ac5665,
      0xf4292244, 0x432aff97, 0xab9423a7, 0xfc93a039,
      0x655b59c3, 0x8f0ccc92, 0xffeff47d, 0x85845dd1,
      0x6fa87e4f, 0xfe2ce6e0, 0xa3014314, 0x4e0811a1,
      0xf7537e82, 0xbd3af235, 0x2ad7d2bb, 0xeb86d391]"

type_synonym md5_state = "u32 \<times> u32 \<times> u32 \<times> u32"

definition md5_init :: md5_state where
  "md5_init = (0x67452301, 0xefcdab89, 0x98badcfe, 0x10325476)"

definition le_bytes32 :: "u32 \<Rightarrow> byte list" where
  "le_bytes32 w = [ucast w, ucast (drop_bit 8 w), ucast (drop_bit 16 w), ucast (drop_bit 24 w)]"

definition le_bytes64 :: "u64 \<Rightarrow> byte list" where
  "le_bytes64 w = map (\<lambda>i. ucast (drop_bit (8 * i) w)) [0..<8]"

definition le_word32 :: "byte list \<Rightarrow> u32" where
  "le_word32 bs = foldr (\<lambda>b acc. ucast b OR push_bit 8 acc) bs 0"

definition md5_pad :: "byte list \<Rightarrow> byte list" where
  "md5_pad msg =
     (let len = (of_nat (length msg) :: u64);
          pad = unat ((55 - len) mod 64)
      in msg @ [0x80] @ replicate pad 0 @ le_bytes64 (push_bit 3 len))"

definition md5_blocks :: "byte list \<Rightarrow> byte list list" where
  "md5_blocks bs = map (\<lambda>i. take 64 (drop (64 * i) bs)) [0..<length bs div 64]"

definition md5_words :: "byte list \<Rightarrow> u32 list" where
  "md5_words blk = map (\<lambda>i. le_word32 (take 4 (drop (4 * i) blk))) [0..<16]"

fun md5_step :: "u32 list \<Rightarrow> md5_state \<Rightarrow> nat \<Rightarrow> md5_state" where
  "md5_step M (a, b, c, d) i =
     (let (f, g) =
            (if i < 16 then ((b AND c) OR (NOT b AND d), i)
             else if i < 32 then ((d AND b) OR (NOT d AND c), (5 * i + 1) mod 16)
             else if i < 48 then (b XOR c XOR d, (3 * i + 5) mod 16)
             else (c XOR (b OR NOT d), (7 * i) mod 16));
          f' = f + a + md5_K ! i + M ! g
      in (d, b + word_rotl (md5_shifts ! i) f', b, c))"

fun md5_add :: "md5_state \<Rightarrow> md5_state \<Rightarrow> md5_state" where
  "md5_add (a, b, c, d) (a', b', c', d') = (a + a', b + b', c + c', d + d')"

definition md5_block :: "md5_state \<Rightarrow> byte list \<Rightarrow> md5_state" where
  "md5_block st blk = md5_add st (foldl (md5_step (md5_words blk)) st [0..<64])"

fun md5_digest :: "md5_state \<Rightarrow> byte list" where
  "md5_digest (a, b, c, d) = le_bytes32 a @ le_bytes32 b @ le_bytes32 c @ le_bytes32 d"

definition md5_Sum :: "byte list \<Rightarrow> byte list" where
  "md5_Sum msg = md5_digest (foldl md5_block md5_init (md5_blocks (md5_pad msg)))"

text \<open>The conversion \<open>[]byte(s)\<close>.\<close>

definition bytes_of :: "string \<Rightarrow> byte list" where
  "bytes_of s = map of_char s"

text \<open>
  \<open>hex.EncodeToString\<close>: two characters of \<open>hextable\<close> for each byte, the high
  nibble first.
\<close>

definition hextable :: string where
  "hextable = ''0123456789abcdef''"

definition EncodeToString :: "byte list \<Rightarrow> string" where
  "EncodeToString src =
     concat (map (\<lambda>v. [hextable ! unat (drop_bit 4 v), hextable ! unat (v AND 0x0f)]) src)"

text \<open>
  \<open>strings.ToLower\<close> on a string of ASCII bytes, which is all it is given here (the
  output of \<open>hex.EncodeToString\<close>): each of \<open>A\<close> to \<open>Z\<close> is moved up by
  \<open>'a' - 'A'\<close>, every other byte is kept.
\<close>

definition lower_byte :: "char \<Rightarrow> char" where
  "lower_byte c =
     (if in_range CHR ''A'' CHR ''Z'' c then char_of ((of_char c :: nat) + 32) else c)"

definition ToLower :: "string \<Rightarrow> string" where
  "ToLower s = map lower_byte s"

section \<open>The accessors\<close>

text \<open>
  The receiver \<open>c *ConfigXMLTemplate\<close> may be \<open>nil\<close>: it is a
  \<open>ConfigXMLTemplate option\<close>. Each accessor returns Go's pair \<open>(string, error)\<close>.
  \<open>GetTemplateID\<close> calls \<open>ComputedHash\<close> and drops its error;
  \<open>fmt.Sprintf("%s@%s", a, b)\<close> is \<open>a @ ''@'' @ b\<close>.
\<close>

definition ComputedHash :: "ConfigXMLTemplate option \<Rightarrow> string \<times> error option" where
  "ComputedHash c =
     (case c of
        None \<Rightarrow> ('''', Some (Errorf ''Invalid config.xml template object''))
      | Some t \<Rightarrow> (ToLower (EncodeToString (md5_Sum (bytes_of (data t)))), None))"

definition RecordedHash :: "ConfigXMLTemplate option \<Rightarrow> string \<times> error option" where
  "RecordedHash c =
     (case c of
        None \<Rightarrow> ('''', Some (Errorf ''Invalid config.xml template object''))
      | Some t \<Rightarrow> (hash t, None))"

definition GetTemplateID :: "ConfigXMLTemplate option \<Rightarrow> string \<times> error option" where
  "GetTemplateID c =
     (case c of
        None \<Rightarrow> ('''', Some (Errorf ''Invalid config.xml template object''))
      | Some t \<Rightarrow>
          if length (source t) = 0 then (data t, None)
          else (let (h, _) = ComputedHash c in (source t @ ''@'' @ h, None)))"

section \<open>BindTo: the resource data and the job\<close>

text \<open>
  The values behind \<open>interface{}\<close> that the resource data hands out: a string, a
  bool, a \<open>[]interface{}\<close>, a \<open>map[string]interface{}\<close> (its entries as a list of
  pairs, looked up with \<open>map_of\<close>), or \<open>nil\<close>. A type assertion \<open>v.(T)\<close> on a value
  of another dynamic type panics.
\<close>

datatype iface =
    IString string
  | IBool bool
  | IList "iface list"
  | IMap "(string \<times> iface) list"
  | INil

definition assert_string :: "iface \<Rightarrow> panic + string" where
  "assert_string v = (case v of IString s \<Rightarrow> Inr s | _ \<Rightarrow> Inl InterfaceConversion)"

definition assert_bool :: "iface \<Rightarrow> panic + bool" where
  "assert_bool v = (case v of IBool b \<Rightarrow> Inr b | _ \<Rightarrow> Inl InterfaceConversion)"

definition assert_list :: "iface \<Rightarrow> panic + iface list" where
  "assert_list v = (case v of IList xs \<Rightarrow> Inr xs | _ \<Rightarrow> Inl InterfaceConversion)"

definition assert_map :: "iface \<Rightarrow> panic + (string \<times> iface) list" where
  "assert_map v = (case v of IMap kvs \<Rightarrow> Inr kvs | _ \<Rightarrow> Inl InterfaceConversion)"

text \<open>
  \<open>*schema.ResourceData\<close> belongs to the plugin host; BindTo uses its two methods
  \<open>Get(key)\<close> and \<open>GetOk(key)\<close>, the second returning the value and whether the key
  is set.
\<close>

record ResourceData =
  Get :: "string \<Rightarrow> iface"
  GetOk :: "string \<Rightarrow> iface \<times> bool"

text \<open>The local type \<open>job\<close> of BindTo (lines 132 to 146).\<close>

record job =
  Name :: string
  Description :: string
  DisplayName :: string
  TriggerRemotelyToken :: string
  Disabled :: bool
  MasterMergeTriggering :: bool
  Permissions :: "string list"
  Parameters :: "(string \<rightharpoonup> string) list"
  BranchPushTriggering :: "string \<rightharpoonup> string"
  PrTriggeringGhpr :: "string \<rightharpoonup> string"
  PrTriggeringGhIntegration :: "string \<rightharpoonup> string"
  Jenkinsfile :: "string \<rightharpoonup> string"
  Configuration :: "string \<rightharpoonup> string"

text \<open>
  \<open>for k, v := range value { m[k] = v.(string) }\<close>: every entry is written into the
  target map, and the first value that is not a string panics.
\<close>

fun copy_entries :: "(string \<times> iface) list \<Rightarrow> (string \<rightharpoonup> string) \<Rightarrow>
    panic + (string \<rightharpoonup> string)" where
  "copy_entries [] m = Inr m"
| "copy_entries ((k, v) # kvs) m =
     bind_p (assert_string v) (\<lambda>s. copy_entries kvs (m(k \<mapsto> s)))"

text \<open>
  \<open>if value, ok := d.GetOk(key); ok { ... }\<close> for a string field, a bool field and a
  map field; \<open>upd\<close> is the assignment to the field of \<open>j\<close>.
\<close>

definition on_string :: "ResourceData \<Rightarrow> string \<Rightarrow> (string \<Rightarrow> job \<Rightarrow> job) \<Rightarrow> job \<Rightarrow> panic + job" where
  "on_string d key upd j =
     (case GetOk d key of
        (value, True) \<Rightarrow> bind_p (assert_string value) (\<lambda>s. Inr (upd s j))
      | (value, False) \<Rightarrow> Inr j)"

definition on_bool :: "ResourceData \<Rightarrow> string \<Rightarrow> (bool \<Rightarrow> job \<Rightarrow> job) \<Rightarrow> job \<Rightarrow> panic + job" where
  "on_bool d key upd j =
     (case GetOk d key of
        (value, True) \<Rightarrow> bind_p (assert_bool value) (\<lambda>b. Inr (upd b j))
      | (value, False) \<Rightarrow> Inr j)"

definition on_map :: "ResourceData \<Rightarrow> string \<Rightarrow> (job \<Rightarrow> string \<rightharpoonup> string) \<Rightarrow>
    ((string \<rightharpoonup> string) \<Rightarrow> job \<Rightarrow> job) \<Rightarrow> job \<Rightarrow> panic + job" where
  "on_map d key field upd j =
     (case GetOk d key of
        (value, True) \<Rightarrow>
          bind_p (assert_map value) (\<lambda>kvs.
          bind_p (copy_entries kvs (field j)) (\<lambda>m. Inr (upd m j)))
      | (value, False) \<Rightarrow> Inr j)"

text \<open>
  Lines 176 to 182: the string under \<open>permissions\<close> is cut at every comma and the
  pieces are appended one by one.
\<close>

definition on_permissions :: "ResourceData \<Rightarrow> job \<Rightarrow> panic + job" where
  "on_permissions d j =
     (case GetOk d ''permissions'' of
        (value, True) \<Rightarrow>
          bind_p (assert_string value) (\<lambda>value.
          let elems = Split value '','' in
          Inr (foldl (\<lambda>j v. j\<lparr>Permissions := Permissions j @ [v]\<rparr>) j elems))
      | (value, False) \<Rightarrow> Inr j)"

text \<open>
  Lines 209 to 223: \<open>if t, ok := configRaw[key]; ok { config[Key] = t.(string) }\<close>.
\<close>

definition copy_key :: "(string \<times> iface) list \<Rightarrow> string \<Rightarrow> string \<Rightarrow>
    (string \<rightharpoonup> string) \<Rightarrow> panic + (string \<rightharpoonup> string)" where
  "copy_key configRaw key Key config =
     (case map_of configRaw key of
        Some t \<Rightarrow> bind_p (assert_string t) (\<lambda>s. Inr (config(Key \<mapsto> s)))
      | None \<Rightarrow> Inr config)"

text \<open>Lines 206 to 223: one element of the \<open>parameter\<close> list.\<close>

definition copy_parameter :: "iface \<Rightarrow> panic + (string \<rightharpoonup> string)" where
  "copy_parameter v =
     bind_p (assert_map v) (\<lambda>configRaw.
     bind_p (copy_key configRaw ''type'' ''Type'' Map.empty) (\<lambda>config.
     bind_p (copy_key configRaw ''name'' ''Name'' config) (\<lambda>config.
     bind_p (copy_key configRaw ''description'' ''Description'' config) (\<lambda>config.
     copy_key configRaw ''default'' ''Default'' config))))"

text \<open>Lines 205 to 226: the loop over \<open>rawValue\<close>, appending to \<open>j.Parameters\<close>.\<close>

fun copy_parameters :: "iface list \<Rightarrow> job \<Rightarrow> panic + job" where
  "copy_parameters [] j = Inr j"
| "copy_parameters (v # vs) j =
     bind_p (copy_parameter v) (\<lambda>config.
     copy_parameters vs (j\<lparr>Parameters := Parameters j @ [config]\<rparr>))"

definition on_parameter :: "ResourceData \<Rightarrow> job \<Rightarrow> panic + job" where
  "on_parameter d j =
     (case GetOk d ''parameter'' of
        (value, True) \<Rightarrow> bind_p (assert_list value) (\<lambda>rawValue. copy_parameters rawValue j)
      | (value, False) \<Rightarrow> Inr j)"

text \<open>
  Lines 150 to 239: the job built from the resource data. The fields that the struct
  literal does not name start at their zero value. \<open>fmt.Println(value)\<close> on line 202
  prints and is left out.
\<close>

definition new_job :: "ResourceData \<Rightarrow> panic + job" where
  "new_job d =
     bind_p (assert_string (Get d ''name'')) (\<lambda>name.
     bind_p (on_string d ''display_name'' (\<lambda>v j. j\<lparr>DisplayName := v\<rparr>)
       \<lparr>Name = name, Description = '''', DisplayName = '''', TriggerRemotelyToken = '''',
        Disabled = False, MasterMergeTriggering = False, Permissions = [],
        Parameters = [], BranchPushTriggering = Map.empty, PrTriggeringGhpr = Map.empty,
        PrTriggeringGhIntegration = Map.empty, Jenkinsfile = Map.empty,
        Configuration = Map.empty\<rparr>) (\<lambda>j.
     bind_p (on_string d ''description'' (\<lambda>v j. j\<lparr>Description := v\<rparr>) j) (\<lambda>j.
     bind_p (on_string d ''trigger_remotely_token'' (\<lambda>v j. j\<lparr>TriggerRemotelyToken := v\<rparr>) j) (\<lambda>j.
     bind_p (on_bool d ''disabled'' (\<lambda>v j. j\<lparr>Disabled := v\<rparr>) j) (\<lambda>j.
     bind_p (on_bool d ''master_merge_triggering'' (\<lambda>v j. j\<lparr>MasterMergeTriggering := v\<rparr>) j) (\<lambda>j.
     bind_p (on_permissions d j) (\<lambda>j.
     bind_p (on_map d ''configuration'' Configuration (\<lambda>m j. j\<lparr>Configuration := m\<rparr>) j) (\<lambda>j.
     bind_p (on_map d ''pr_triggering_ghpr'' PrTriggeringGhpr (\<lambda>m j. j\<lparr>PrTriggeringGhpr := m\<rparr>) j) (\<lambda>j.
     bind_p (on_map d ''pr_triggering_gh_integration'' PrTriggeringGhIntegration
               (\<lambda>m j. j\<lparr>PrTriggeringGhIntegration := m\<rparr>) j) (\<lambda>j.
     bind_p (on_parameter d j) (\<lambda>j.
     bind_p (on_map d ''branch_push_triggering'' BranchPushTriggering
               (\<lambda>m j. j\<lparr>BranchPushTriggering := m\<rparr>) j) (\<lambda>j.
     on_map d ''jenkinsfile'' Jenkinsfile (\<lambda>m j. j\<lparr>Jenkinsfile := m\<rparr>) j))))))))))))"

section \<open>BindTo: parsing and executing the template\<close>

text \<open>
  The template engine \<open>html/template\<close>: \<open>Parse\<close> is
  \<open>template.New("template").Parse(text)\<close>, returning the parsed template or the
  parser's error; \<open>Execute\<close> is \<open>tpl.Execute(&buffer, j)\<close>, returning what it wrote
  to the buffer and its error or \<open>nil\<close>.
\<close>

record 'tpl engine =
  Parse :: "string \<Rightarrow> error + 'tpl"
  Execute :: "'tpl \<Rightarrow> job \<Rightarrow> string \<times> error option"

definition BindTo :: "'tpl engine \<Rightarrow> ConfigXMLTemplate option \<Rightarrow> ResourceData \<Rightarrow>
    panic + (string \<times> error option)" where
  "BindTo E c d =
     (case c of
        None \<Rightarrow> Inr ('''', Some (Errorf ''Invalid config.xml template object''))
      | Some t \<Rightarrow>
          (case Parse E (data t) of
             Inl err \<Rightarrow> Inr ('''', Some err)
           | Inr tpl \<Rightarrow>
               bind_p (new_job d) (\<lambda>j.
               case Execute E tpl j of
                 (buffer, Some err) \<Rightarrow> Inr ('''', Some err)
               | (buffer, None) \<Rightarrow> Inr (buffer, None))))"

section \<open>The specification's wording, for comparison with the code\<close>

text \<open>
  The specification's description of a reference that carries a recorded hash: it ends
  in \<open>@\<close> followed by exactly 32 lowercase hexadecimal characters.
\<close>

definition spec_ends_in_hash :: "string \<Rightarrow> bool" where
  "spec_ends_in_hash s =
     (33 \<le> length s \<and> s ! (length s - 33) = CHR ''@'' \<and>
      list_all (\<lambda>c. c \<in> set ''0123456789abcdef'') (drop (length s - 32) s))"

text \<open>
  The specification's description of the permissions list: the text is cut at every
  comma, the pieces are kept in order, and an empty piece is a piece.
\<close>

fun spec_comma_pieces :: "string \<Rightarrow> string list" where
  "spec_comma_pieces [] = [[]]"
| "spec_comma_pieces (c # cs) =
     (if c = CHR '','' then [] # spec_comma_pieces cs
      else (c # hd (spec_comma_pieces cs)) # tl (spec_comma_pieces cs))"

section \<open>Example inputs\<close>

text \<open>
  A resource data value with a name, a permissions string and two parameter records
  (the first without \<open>description\<close> and \<open>default\<close>, the second without \<open>type\<close>
  and \<open>description\<close>), and the job that \<open>new_job\<close> builds from it.
\<close>

definition example_data :: ResourceData where
  "example_data =
     \<lparr>Get = (\<lambda>key. if key = ''name'' then IString ''job'' else INil),
      GetOk = (\<lambda>key.
        if key = ''permissions'' then (IString ''a,b,,c'', True)
        else if key = ''parameter'' then
          (IList [IMap [(''type'', IString ''string''), (''name'', IString ''BRANCH'')],
                  IMap [(''name'', IString ''DRY_RUN''), (''default'', IString '''')]], True)
        else (INil, False))\<rparr>"

definition example_job :: job where
  "example_job =
     \<lparr>Name = ''job'', Description = '''', DisplayName = '''', TriggerRemotelyToken = '''',
      Disabled = False, MasterMergeTriggering = False,
      Permissions = [''a'', ''b'', '''', ''c''],
      Parameters = [[''Type'' \<mapsto> ''string'', ''Name'' \<mapsto> ''BRANCH''],
                    [''Name'' \<mapsto> ''DRY_RUN'', ''Default'' \<mapsto> '''']],
      BranchPushTriggering = Map.empty, PrTriggeringGhpr = Map.empty,
      PrTriggeringGhIntegration = Map.empty, Jenkinsfile = Map.empty,
      Configuration = Map.empty\<rparr>"

text \<open>
  A template engine that rejects the text \<open>{{\<close>, fails while executing the text
  \<open>{{.Missing}}\<close> after writing one character, and copies every other text.
\<close>

definition example_engine :: "string engine" where
  "example_engine =
     \<lparr>Parse = (\<lambda>text. if text = ''{{'' then Inl (External ''unclosed action'') else Inr text),
      Execute = (\<lambda>tpl j.
        if tpl = ''{{.Missing}}'' then (''<'', Some (External ''cannot evaluate field Missing''))
        else (tpl, None))\<rparr>"

section \<open>Proofs\<close>

lemma bind_p_Inr [simp]: "bind_p (Inr v) f = f v"
  by (simp add: bind_p_def)

lemma bind_p_Inl [simp]: "bind_p (Inl p) f = Inl p"
  by (simp add: bind_p_def)

lemma bind_p_eq_Inr: "bind_p x f = Inr y \<longleftrightarrow> (\<exists>v. x = Inr v \<and> f v = Inr y)"
  by (cases x) simp_all

lemma HasPrefix_iff: "HasPrefix s pre \<longleftrightarrow> (\<exists>t. s = pre @ t)"
proof
  assume "HasPrefix s pre"
  then have "s = pre @ drop (length pre) s"
    by (metis HasPrefix_def append_take_drop_id)
  then show "\<exists>t. s = pre @ t" ..
next
  assume "\<exists>t. s = pre @ t"
  then show "HasPrefix s pre" by (auto simp: HasPrefix_def)
qed

lemma lower_hex_iff: "lower_hex c \<longleftrightarrow> c \<in> set ''0123456789abcdef''"
proof (cases c)
  case (Char b0 b1 b2 b3 b4 b5 b6 b7)
  show ?thesis
    unfolding Char lower_hex_def in_range_def
    by (cases b0; cases b1; cases b2; cases b3; cases b4; cases b5; cases b6; cases b7) simp_all
qed

lemma match_EndText: "match_here [EndText] s = (s = [])"
  by simp

lemma match_Rep:
  "match_here (Rep p n # r) s =
     (\<exists>h t. s = h @ t \<and> length h = n \<and> list_all p h \<and> match_here r t)"
proof (induction n arbitrary: s)
  case 0
  then show ?case by simp
next
  case (Suc n)
  show ?case
  proof (cases s)
    case Nil
    then show ?thesis by simp
  next
    case (Cons c cs)
    show ?thesis
    proof
      assume "match_here (Rep p (Suc n) # r) s"
      with Cons Suc obtain h t where "p c" "cs = h @ t" "length h = n" "list_all p h" "match_here r t"
        by auto
      then have "s = (c # h) @ t \<and> length (c # h) = Suc n \<and> list_all p (c # h) \<and> match_here r t"
        using Cons by simp
      then show "\<exists>h t. s = h @ t \<and> length h = Suc n \<and> list_all p h \<and> match_here r t"
        by blast
    next
      assume "\<exists>h t. s = h @ t \<and> length h = Suc n \<and> list_all p h \<and> match_here r t"
      then obtain h t where ht: "s = h @ t" "length h = Suc n" "list_all p h" "match_here r t"
        by blast
      then obtain c' h' where h: "h = c' # h'" by (cases h) auto
      with ht Cons have "c' = c" "cs = h' @ t" "length h' = n" "p c" "list_all p h'" by auto
      with ht Suc Cons show "match_here (Rep p (Suc n) # r) s" by auto
    qed
  qed
qed

lemma match_One:
  "match_here (One p # r) s = (\<exists>c t. s = c # t \<and> p c \<and> match_here r t)"
  by (cases s) auto

lemma match_Star:
  "match_here (Star p # r) s =
     (\<exists>q t. s = q @ t \<and> list_all p q \<and> match_here r t)"
proof (induction s)
  case Nil
  then show ?case by simp
next
  case (Cons c cs)
  show ?case
  proof
    assume "match_here (Star p # r) (c # cs)"
    then consider "match_here r (c # cs)" | "p c" "match_here (Star p # r) cs" by auto
    then show "\<exists>q t. c # cs = q @ t \<and> list_all p q \<and> match_here r t"
    proof cases
      case 1
      then have "c # cs = [] @ (c # cs) \<and> list_all p [] \<and> match_here r (c # cs)" by simp
      then show ?thesis by blast
    next
      case 2
      with Cons obtain q t where "cs = q @ t" "list_all p q" "match_here r t" by auto
      with 2 have "c # cs = (c # q) @ t \<and> list_all p (c # q) \<and> match_here r t" by simp
      then show ?thesis by blast
    qed
  next
    assume "\<exists>q t. c # cs = q @ t \<and> list_all p q \<and> match_here r t"
    then obtain q t where qt: "c # cs = q @ t" "list_all p q" "match_here r t" by blast
    show "match_here (Star p # r) (c # cs)"
    proof (cases q)
      case Nil
      with qt have "t = c # cs" by simp
      with qt show ?thesis by simp
    next
      case (Cons a q')
      with qt have "a = c" "cs = q' @ t" "p c" "list_all p q'" by auto
      with qt Cons.IH show ?thesis by auto
    qed
  qed
qed

lemma MatchString_iff:
  "MatchString re s = (\<exists>a b. s = a @ b \<and> match_here re b)"
proof (induction s)
  case Nil
  then show ?case by simp
next
  case (Cons c cs)
  show ?case
  proof
    assume "MatchString re (c # cs)"
    then consider "match_here re (c # cs)" | "MatchString re cs" by auto
    then show "\<exists>a b. c # cs = a @ b \<and> match_here re b"
    proof cases
      case 1
      then have "c # cs = [] @ (c # cs) \<and> match_here re (c # cs)" by simp
      then show ?thesis by blast
    next
      case 2
      with Cons obtain a b where "cs = a @ b" "match_here re b" by auto
      then have "c # cs = (c # a) @ b \<and> match_here re b" by simp
      then show ?thesis by blast
    qed
  next
    assume "\<exists>a b. c # cs = a @ b \<and> match_here re b"
    then obtain a b where ab: "c # cs = a @ b" "match_here re b" by blast
    show "MatchString re (c # cs)"
    proof (cases a)
      case Nil
      with ab have "b = c # cs" by simp
      with ab show ?thesis by simp
    next
      case (Cons x a')
      with ab have "cs = a' @ b" by simp
      with ab Cons.IH show ?thesis by auto
    qed
  qed
qed

lemma MatchString_hash_re: "MatchString hash_re s = (\<exists>p h. s = p @ CHR ''@'' # h \<and> length h = 32 \<and> list_all lower_hex h)"
proof
  assume "MatchString hash_re s"
  then obtain a b where ab: "s = a @ b" "match_here hash_re b"
    by (auto simp: MatchString_iff)
  then obtain q h where "b = q @ CHR ''@'' # h" "length h = 32" "list_all lower_hex h"
    by (auto simp: hash_re_def match_Star match_One match_Rep lit_def)
  with ab have "s = (a @ q) @ CHR ''@'' # h \<and> length h = 32 \<and> list_all lower_hex h" by simp
  then show "\<exists>p h. s = p @ CHR ''@'' # h \<and> length h = 32 \<and> list_all lower_hex h" by blast
next
  assume "\<exists>p h. s = p @ CHR ''@'' # h \<and> length h = 32 \<and> list_all lower_hex h"
  then obtain p h where ph: "s = p @ CHR ''@'' # h" "length h = 32" "list_all lower_hex h" by blast
  have "match_here hash_re (CHR ''@'' # h)"
    unfolding hash_re_def match_Star match_One match_Rep
    using ph by (intro exI[of _ "[]"] exI[of _ "CHR ''@'' # h"]) (auto simp: lit_def)
  with ph show "MatchString hash_re s" by (auto simp: MatchString_iff)
qed


lemma spec_ends_in_hash_iff:
  "spec_ends_in_hash s \<longleftrightarrow>
     (\<exists>p h. s = p @ CHR ''@'' # h \<and> length h = 32 \<and> list_all lower_hex h)"
proof
  assume a: "spec_ends_in_hash s"
  define n where "n = length s - 33"
  from a have n: "n < length s" "Suc n = length s - 32"
    by (auto simp: spec_ends_in_hash_def n_def)
  from n(1) have "s = take n s @ s ! n # drop (Suc n) s"
    by (rule id_take_nth_drop)
  moreover from a n have "s ! n = CHR ''@''"
    by (simp add: spec_ends_in_hash_def n_def)
  moreover from a n have "list_all lower_hex (drop (Suc n) s)"
    by (simp add: spec_ends_in_hash_def lower_hex_iff[abs_def])
  moreover from n have "length (drop (Suc n) s) = 32"
    using a by (simp add: spec_ends_in_hash_def)
  ultimately show "\<exists>p h. s = p @ CHR ''@'' # h \<and> length h = 32 \<and> list_all lower_hex h"
    by metis
next
  assume "\<exists>p h. s = p @ CHR ''@'' # h \<and> length h = 32 \<and> list_all lower_hex h"
  then obtain p h where ph: "s = p @ CHR ''@'' # h" "length h = 32" "list_all lower_hex h"
    by blast
  then have "length s - 33 = length p" "length s - 32 = Suc (length p)" by simp_all
  with ph show "spec_ends_in_hash s"
    by (simp add: spec_ends_in_hash_def lower_hex_iff[abs_def])
qed

lemma split_hash_suffix:
  assumes "length h = 32" and "list_all lower_hex h"
  shows "split_hash (p @ CHR ''@'' # h) = Inr (p, h)"
proof -
  have "MatchString hash_re (p @ CHR ''@'' # h)"
    using assms by (auto simp: MatchString_hash_re)
  moreover have "nat (1 + int (length p)) = Suc (length p)" by simp
  ultimately show ?thesis
    using assms by (simp add: split_hash_def slice_to_def slice_from_def)
qed

lemma split_hash_eq:
  "split_hash input =
     Inr (if spec_ends_in_hash input
          then (take (length input - 33) input, drop (length input - 32) input)
          else (input, ''''))"
proof (cases "spec_ends_in_hash input")
  case True
  then obtain p h where ph: "input = p @ CHR ''@'' # h" "length h = 32" "list_all lower_hex h"
    by (auto simp: spec_ends_in_hash_iff)
  then have "length input - 33 = length p" "length input - 32 = Suc (length p)" by simp_all
  with ph True show ?thesis by (simp add: split_hash_suffix)
next
  case False
  then have "\<not> MatchString hash_re input"
    by (simp add: spec_ends_in_hash_iff MatchString_hash_re)
  with False show ?thesis by (simp add: split_hash_def)
qed

lemma fetch_hash: "fetch w src h = ((Some c, e), t) \<Longrightarrow> hash c = h"
  by (auto simp: fetch_def Let_def split: if_splits sum.splits)

text \<open>
  Claim C1. For every reference \<open>input\<close>, lines 34 to 40 of NewConfigXMLTemplate split
  off a recorded hash exactly when \<open>input\<close> ends in \<open>@\<close> followed by 32 lowercase
  hexadecimal characters. Then the recorded hash is the last 32 characters and the
  candidate is \<open>input\<close> without its last 33 characters; otherwise the recorded hash is
  empty and the candidate is all of \<open>input\<close>. The slice expressions never panic, the
  candidate and the hash are what the classification step receives, and the hash of
  every template that is returned is the one that was split off.
\<close>
theorem resolve_splits_recorded_hash:
  "split_hash input =
     Inr (if spec_ends_in_hash input
          then (take (length input - 33) input, drop (length input - 32) input)
          else (input, ''''))
   \<and> NewConfigXMLTemplate w input =
       Inr (if spec_ends_in_hash input
            then fetch w (take (length input - 33) input) (drop (length input - 32) input)
            else fetch w input '''')
   \<and> (\<forall>c e t. NewConfigXMLTemplate w input = Inr ((Some c, e), t) \<longrightarrow>
         hash c = (if spec_ends_in_hash input then drop (length input - 32) input else ''''))"
proof -
  have 1: "NewConfigXMLTemplate w input =
       Inr (if spec_ends_in_hash input
            then fetch w (take (length input - 33) input) (drop (length input - 32) input)
            else fetch w input '''')"
    by (simp add: NewConfigXMLTemplate_def split_hash_eq)
  have "hash c = (if spec_ends_in_hash input then drop (length input - 32) input else '''')"
    if "NewConfigXMLTemplate w input = Inr ((Some c, e), t)" for c e t
    using that unfolding 1 by (auto split: if_splits dest: fetch_hash)
  with 1 show ?thesis by (simp add: split_hash_eq)
qed

theorem resolve_splits_recorded_hash_witness:
  "NewConfigXMLTemplate
     \<lparr>http_Get = (\<lambda>url. Inl (External ''no route to host'')),
      ReadFile = (\<lambda>path. Inl (External ''no such file''))\<rparr>
     ''foo@deadbeefdeadbeefdeadbeefdeadbeef''
   = Inr ((Some \<lparr>source = '''', data = ''foo'', hash = ''deadbeefdeadbeefdeadbeefdeadbeef''\<rparr>,
           None), [])
   \<and> spec_ends_in_hash ''foo@deadbeefdeadbeefdeadbeefdeadbeef''
   \<and> hash \<lparr>source = '''', data = ''foo'', hash = ''deadbeefdeadbeefdeadbeefdeadbeef''\<rparr>
       = ''deadbeefdeadbeefdeadbeefdeadbeef''"
proof -
  have s: "spec_ends_in_hash ''foo@deadbeefdeadbeefdeadbeefdeadbeef''"
    by (simp add: spec_ends_in_hash_def)
  show ?thesis
    using resolve_splits_recorded_hash
      [of "''foo@deadbeefdeadbeefdeadbeefdeadbeef''"
          "\<lparr>http_Get = (\<lambda>url. Inl (External ''no route to host'')),
            ReadFile = (\<lambda>path. Inl (External ''no such file''))\<rparr>"] s
    by (simp add: fetch_def HasPrefix_def)
qed

text \<open>
  Claim C2. When the candidate left by the hash split begins with none of \<open>http://\<close>,
  \<open>https://\<close> and \<open>file://\<close>, NewConfigXMLTemplate returns a template with an empty
  \<open>source\<close> and the candidate itself as \<open>data\<close>, returns no error, and calls neither
  the HTTP client nor the file system.
\<close>
theorem inline_candidate_is_content:
  assumes "split_hash input = Inr (cand, h)"
    and "\<forall>t. cand \<noteq> ''http://'' @ t"
    and "\<forall>t. cand \<noteq> ''https://'' @ t"
    and "\<forall>t. cand \<noteq> ''file://'' @ t"
  shows "NewConfigXMLTemplate w input =
           Inr ((Some \<lparr>source = '''', data = cand, hash = h\<rparr>, None), [])"
proof -
  from assms(2-4) have "\<not> HasPrefix cand ''http://''" "\<not> HasPrefix cand ''https://''"
      "\<not> HasPrefix cand ''file://''"
    unfolding HasPrefix_iff by blast+
  with assms(1) show ?thesis
    by (simp add: NewConfigXMLTemplate_def fetch_def)
qed

theorem inline_candidate_is_content_witness:
  "NewConfigXMLTemplate
     \<lparr>http_Get = (\<lambda>url. Inr (Inr ''<remote/>'')), ReadFile = (\<lambda>path. Inr ''<local/>'')\<rparr>
     ''inline-body-text''
     = Inr ((Some \<lparr>source = '''', data = ''inline-body-text'', hash = ''''\<rparr>, None), [])
   \<and> GetTemplateID (Some \<lparr>source = '''', data = ''inline-body-text'', hash = ''''\<rparr>)
     = (''inline-body-text'', None)"
proof -
  have 1: "split_hash ''inline-body-text'' = Inr (''inline-body-text'', '''')"
    by (simp add: split_hash_eq spec_ends_in_hash_def)
  have 2: "\<forall>t. ''inline-body-text'' \<noteq> ''http://'' @ t"
    and 3: "\<forall>t. ''inline-body-text'' \<noteq> ''https://'' @ t"
    and 4: "\<forall>t. ''inline-body-text'' \<noteq> ''file://'' @ t"
    by simp_all
  show ?thesis
    using inline_candidate_is_content [OF 1 2 3 4,
        of "\<lparr>http_Get = (\<lambda>url. Inr (Inr ''<remote/>'')), ReadFile = (\<lambda>path. Inr ''<local/>'')\<rparr>"]
    by (simp add: GetTemplateID_def)
qed

text \<open>
  Claim C3. On a template that is not \<open>nil\<close>, GetTemplateID returns \<open>data\<close> when
  \<open>source\<close> is empty, and otherwise \<open>source\<close>, an \<open>@\<close> and the computed hash of
  \<open>data\<close>; in both cases the error is \<open>nil\<close>.
\<close>
theorem template_id_of_initialized:
  "GetTemplateID (Some t) =
     (if source t = '''' then (data t, None)
      else (source t @ ''@'' @ fst (ComputedHash (Some t)), None))"
  by (simp add: GetTemplateID_def split: prod.splits)

text \<open>
  Claim C6. On a \<open>nil\<close> receiver each of GetTemplateID, RecordedHash, ComputedHash and
  BindTo returns the empty string together with the error built from the text
  \<open>Invalid config.xml template object\<close>; none of them panics.
\<close>
theorem accessors_on_nil:
  "GetTemplateID None = ('''', Some (Errorf ''Invalid config.xml template object''))
   \<and> RecordedHash None = ('''', Some (Errorf ''Invalid config.xml template object''))
   \<and> ComputedHash None = ('''', Some (Errorf ''Invalid config.xml template object''))
   \<and> BindTo E None d = Inr ('''', Some (Errorf ''Invalid config.xml template object''))"
  by (simp add: GetTemplateID_def RecordedHash_def ComputedHash_def BindTo_def)

lemma length_md5_digest: "length (md5_digest st) = 16"
  by (cases st) (simp add: le_bytes32_def)

lemma length_md5_Sum: "length (md5_Sum msg) = 16"
  by (simp add: md5_Sum_def length_md5_digest)

lemma length_EncodeToString: "length (EncodeToString src) = 2 * length src"
  by (induction src) (simp_all add: EncodeToString_def)

lemma high_nibble_bound: "unat (drop_bit 4 (v :: byte)) < 16"
proof -
  have "unat v < 256" using unsigned_less[of v, where ?'a = nat] by simp
  then have "unat v div 16 < 16" by simp
  then show ?thesis by (simp add: drop_bit_eq_div unat_div)
qed

lemma low_nibble_bound: "unat ((v :: byte) AND 0x0f) < 16"
proof -
  have "unat (v AND 15) \<le> unat (15 :: byte)"
    by (rule word_and_le1 [THEN word_le_nat_alt [THEN iffD1]])
  then show ?thesis by simp
qed

lemma hextable_nth: "n < 16 \<Longrightarrow> hextable ! n \<in> set ''0123456789abcdef''"
  unfolding hextable_def by (rule nth_mem) simp

lemma set_EncodeToString: "set (EncodeToString src) \<subseteq> set ''0123456789abcdef''"
proof (induction src)
  case Nil
  then show ?case by (simp add: EncodeToString_def)
next
  case (Cons v src)
  have "hextable ! unat (drop_bit 4 v) \<in> set ''0123456789abcdef''"
    by (rule hextable_nth [OF high_nibble_bound])
  moreover have "hextable ! unat (v AND 0x0f) \<in> set ''0123456789abcdef''"
    by (rule hextable_nth [OF low_nibble_bound])
  moreover have "EncodeToString (v # src) =
      hextable ! unat (drop_bit 4 v) # hextable ! unat (v AND 0x0f) # EncodeToString src"
    by (simp add: EncodeToString_def)
  ultimately show ?case using Cons.IH by (simp only: set_simps insert_subset) 
qed

lemma lower_byte_hex: "c \<in> set ''0123456789abcdef'' \<Longrightarrow> lower_byte c = c"
  by (auto simp: lower_byte_def in_range_def)

lemma ToLower_hex:
  assumes "set s \<subseteq> set ''0123456789abcdef''"
  shows "ToLower s = s"
proof -
  have "lower_byte x = x" if "x \<in> set s" for x
    using that assms lower_byte_hex by blast
  then show ?thesis unfolding ToLower_def by (rule map_idI)
qed

lemma ComputedHash_Some:
  "ComputedHash (Some t) = (EncodeToString (md5_Sum (bytes_of (data t))), None)"
  using ToLower_hex [OF set_EncodeToString, of "md5_Sum (bytes_of (data t))"]
  by (simp add: ComputedHash_def)

lemma ComputedHash_length: "length (fst (ComputedHash (Some t))) = 32"
  by (simp add: ComputedHash_Some length_EncodeToString length_md5_Sum)

lemma ComputedHash_lower_hex: "list_all lower_hex (fst (ComputedHash (Some t)))"
proof -
  have "\<forall>x \<in> set (EncodeToString (md5_Sum (bytes_of (data t)))). lower_hex x"
    using set_EncodeToString lower_hex_iff by blast
  then show ?thesis by (simp only: ComputedHash_Some fst_conv list_all_iff)
qed

text \<open>
  Claim C4. ComputedHash depends on the \<open>data\<close> of the template only: two templates
  with the same \<open>data\<close> have the same result. On a template that is not \<open>nil\<close> it
  returns no error and a digest of exactly 32 characters, each one of
  \<open>0123456789abcdef\<close>; so a location followed by \<open>@\<close> and the digest matches the
  pattern of the hash suffix and is split back into the location and the digest.
\<close>
theorem computed_hash_is_32_lower_hex_of_content:
  "(data c1 = data c2 \<longrightarrow> ComputedHash (Some c1) = ComputedHash (Some c2))
   \<and> snd (ComputedHash (Some c)) = None
   \<and> length (fst (ComputedHash (Some c))) = 32
   \<and> list_all (\<lambda>x. x \<in> set ''0123456789abcdef'') (fst (ComputedHash (Some c)))
   \<and> MatchString hash_re (location @ ''@'' @ fst (ComputedHash (Some c)))
   \<and> split_hash (location @ ''@'' @ fst (ComputedHash (Some c)))
       = Inr (location, fst (ComputedHash (Some c)))"
proof -
  have "MatchString hash_re (location @ ''@'' @ fst (ComputedHash (Some c)))"
    using ComputedHash_length[of c] ComputedHash_lower_hex[of c]
    by (auto simp: MatchString_hash_re)
  moreover have "split_hash (location @ ''@'' @ fst (ComputedHash (Some c)))
       = Inr (location, fst (ComputedHash (Some c)))"
    using split_hash_suffix [OF ComputedHash_length ComputedHash_lower_hex, of location c]
    by simp
  moreover have "list_all (\<lambda>x. x \<in> set ''0123456789abcdef'') (fst (ComputedHash (Some c)))"
    using ComputedHash_lower_hex[of c] by (simp add: lower_hex_iff[abs_def])
  ultimately show ?thesis
    by (simp add: ComputedHash_length) (simp add: ComputedHash_def)
qed

theorem computed_hash_is_32_lower_hex_of_content_witness:
  "ComputedHash (Some \<lparr>source = ''file:///tmp/t.xml'', data = ''<a/>'', hash = ''''\<rparr>)
     = ComputedHash (Some \<lparr>source = '''', data = ''<a/>'',
         hash = ''deadbeefdeadbeefdeadbeefdeadbeef''\<rparr>)"
  using computed_hash_is_32_lower_hex_of_content
    [of "\<lparr>source = ''file:///tmp/t.xml'', data = ''<a/>'', hash = ''''\<rparr>"
        "\<lparr>source = '''', data = ''<a/>'', hash = ''deadbeefdeadbeefdeadbeefdeadbeef''\<rparr>"]
  by simp

lemma fetch_located:
  assumes "fetch w src h = ((Some c, e), t)" and "source c \<noteq> ''''"
  shows "fetch w src h' = ((Some (c\<lparr>hash := h'\<rparr>), None), t) \<and> source c = src"
  using assms by (auto simp: fetch_def Let_def split: if_splits sum.splits)

text \<open>
  Claim C5. Let \<open>c\<close> be a template returned by NewConfigXMLTemplate with a non-empty
  \<open>source\<close>. Resolving \<open>GetTemplateID c\<close> against the same HTTP server and file
  system returns a template, and no error, whose recorded hash is the computed hash of
  \<open>c\<close>, whose \<open>data\<close> is the \<open>data\<close> of \<open>c\<close> and whose \<open>source\<close> is the
  \<open>source\<close> of \<open>c\<close>.
\<close>
theorem template_id_round_trip:
  assumes "NewConfigXMLTemplate w input = Inr ((Some c, e), t)"
    and "source c \<noteq> ''''"
  shows "\<exists>c' t'. NewConfigXMLTemplate w (fst (GetTemplateID (Some c)))
                    = Inr ((Some c', None), t')
           \<and> RecordedHash (Some c') = (fst (ComputedHash (Some c)), None)
           \<and> data c' = data c
           \<and> source c' = source c"
proof -
  from assms(1) obtain src h where sh: "split_hash input = Inr (src, h)"
      and f: "fetch w src h = ((Some c, e), t)"
    by (auto simp: NewConfigXMLTemplate_def bind_p_eq_Inr)
  let ?H = "fst (ComputedHash (Some c))"
  from fetch_located [OF f assms(2), of ?H]
  have f': "fetch w src ?H = ((Some (c\<lparr>hash := ?H\<rparr>), None), t)" and src: "source c = src"
    by simp_all
  from assms(2) src have id: "fst (GetTemplateID (Some c)) = src @ CHR ''@'' # ?H"
    by (simp add: GetTemplateID_def split: prod.splits)
  have "split_hash (src @ CHR ''@'' # ?H) = Inr (src, ?H)"
    by (rule split_hash_suffix [OF ComputedHash_length ComputedHash_lower_hex])
  with id f' have "NewConfigXMLTemplate w (fst (GetTemplateID (Some c)))
      = Inr ((Some (c\<lparr>hash := ?H\<rparr>), None), t)"
    by (simp add: NewConfigXMLTemplate_def)
  then show ?thesis by (simp add: RecordedHash_def)
qed

theorem template_id_round_trip_witness:
  "\<exists>c' t'. NewConfigXMLTemplate
       \<lparr>http_Get = (\<lambda>url. Inl (External ''no route to host'')),
        ReadFile = (\<lambda>path. if path = ''/tmp/t.xml'' then Inr ''<a/>''
                              else Inl (External ''no such file''))\<rparr>
       (fst (GetTemplateID
          (Some \<lparr>source = ''file:///tmp/t.xml'', data = ''<a/>'', hash = ''''\<rparr>)))
     = Inr ((Some c', None), t')
   \<and> RecordedHash (Some c')
     = (fst (ComputedHash
          (Some \<lparr>source = ''file:///tmp/t.xml'', data = ''<a/>'', hash = ''''\<rparr>)), None)
   \<and> data c' = ''<a/>''
   \<and> source c' = ''file:///tmp/t.xml''"
proof -
  have 1: "NewConfigXMLTemplate
       \<lparr>http_Get = (\<lambda>url. Inl (External ''no route to host'')),
        ReadFile = (\<lambda>path. if path = ''/tmp/t.xml'' then Inr ''<a/>''
                              else Inl (External ''no such file''))\<rparr>
       ''file:///tmp/t.xml''
     = Inr ((Some \<lparr>source = ''file:///tmp/t.xml'', data = ''<a/>'', hash = ''''\<rparr>, None),
            [FileRead ''/tmp/t.xml''])"
    by (simp add: NewConfigXMLTemplate_def split_hash_eq spec_ends_in_hash_def fetch_def
        HasPrefix_def Replace_first_def Let_def)
  have 2: "source \<lparr>source = ''file:///tmp/t.xml'', data = ''<a/>'', hash = ''''\<rparr> \<noteq> ''''"
    by simp
  show ?thesis
    using template_id_round_trip [OF 1 2] by simp
qed

lemma Split_comma_Nil: "Split [] '','' = [[]]"
  by (subst Split.simps) simp

lemma Split_comma_Cons:
  "Split (c # cs) '','' =
     (if c = CHR '','' then [] # Split cs '',''
      else (c # hd (Split cs '','')) # tl (Split cs '',''))"
proof (cases "c = CHR '',''")
  case True
  then show ?thesis by (subst Split.simps) (simp add: HasPrefix_def)
next
  case False
  then have i: "Index (c # cs) '','' = map_option Suc (Index cs '','')"
    by (simp add: HasPrefix_def)
  show ?thesis
  proof (cases "Index cs '',''")
    case None
    with i False show ?thesis
      by (subst Split.simps, subst (2 3) Split.simps) simp
  next
    case (Some m)
    with i False show ?thesis
      by (subst Split.simps, subst (2 3) Split.simps) simp
  qed
qed

lemma Split_comma_spec: "Split s '','' = spec_comma_pieces s"
  by (induction s) (simp_all only: Split_comma_Nil Split_comma_Cons spec_comma_pieces.simps)

lemma append_permissions:
  "foldl (\<lambda>j v. j\<lparr>Permissions := Permissions j @ [v]\<rparr>) j elems
     = j\<lparr>Permissions := Permissions j @ elems\<rparr>"
  by (induction elems arbitrary: j) simp_all

lemma on_string_keeps:
  assumes "on_string d key upd j = Inr j'" and "\<And>v j. F (upd v j) = F j"
  shows "F j' = F j"
  using assms by (auto simp: on_string_def bind_p_eq_Inr split: prod.splits bool.splits)

lemma on_bool_keeps:
  assumes "on_bool d key upd j = Inr j'" and "\<And>v j. F (upd v j) = F j"
  shows "F j' = F j"
  using assms by (auto simp: on_bool_def bind_p_eq_Inr split: prod.splits bool.splits)

lemma on_map_keeps:
  assumes "on_map d key field upd j = Inr j'" and "\<And>v j. F (upd v j) = F j"
  shows "F j' = F j"
  using assms by (auto simp: on_map_def bind_p_eq_Inr split: prod.splits bool.splits)

lemma on_permissions_Parameters:
  "on_permissions d j = Inr j' \<Longrightarrow> Parameters j' = Parameters j"
  by (auto simp: on_permissions_def bind_p_eq_Inr append_permissions
      split: prod.splits bool.splits)

lemma on_permissions_set:
  assumes "on_permissions d j = Inr j'" and "GetOk d ''permissions'' = (value, True)"
  shows "\<exists>s. value = IString s \<and> Permissions j' = Permissions j @ Split s '',''"
  using assms
  by (auto simp: on_permissions_def bind_p_eq_Inr append_permissions assert_string_def
      split: iface.splits)

lemma copy_parameters_Permissions:
  "copy_parameters vs j = Inr j' \<Longrightarrow> Permissions j' = Permissions j"
  by (induction vs arbitrary: j) (auto simp: bind_p_eq_Inr)

lemma on_parameter_Permissions:
  "on_parameter d j = Inr j' \<Longrightarrow> Permissions j' = Permissions j"
  by (auto simp: on_parameter_def bind_p_eq_Inr split: prod.splits bool.splits
      dest: copy_parameters_Permissions)

lemma copy_parameters_appends:
  "copy_parameters vs j = Inr j' \<Longrightarrow>
     \<exists>cfgs. Parameters j' = Parameters j @ cfgs \<and>
            list_all2 (\<lambda>v cfg. copy_parameter v = Inr cfg) vs cfgs"
proof (induction vs arbitrary: j)
  case Nil
  then show ?case by simp
next
  case (Cons v vs)
  then obtain config where c: "copy_parameter v = Inr config"
      and r: "copy_parameters vs (j\<lparr>Parameters := Parameters j @ [config]\<rparr>) = Inr j'"
    by (auto simp: bind_p_eq_Inr)
  from Cons.IH [OF r] obtain cfgs where
      "Parameters j' = (Parameters j @ [config]) @ cfgs"
      "list_all2 (\<lambda>v cfg. copy_parameter v = Inr cfg) vs cfgs"
    by auto
  with c have "Parameters j' = Parameters j @ (config # cfgs) \<and>
      list_all2 (\<lambda>v cfg. copy_parameter v = Inr cfg) (v # vs) (config # cfgs)"
    by simp
  then show ?case by blast
qed

lemma on_parameter_set:
  assumes "on_parameter d j = Inr j'" and "GetOk d ''parameter'' = (value, True)"
  shows "\<exists>rawValue cfgs. value = IList rawValue \<and> Parameters j' = Parameters j @ cfgs \<and>
            list_all2 (\<lambda>v cfg. copy_parameter v = Inr cfg) rawValue cfgs"
proof -
  from assms obtain rawValue where "value = IList rawValue"
      "copy_parameters rawValue j = Inr j'"
    by (auto simp: on_parameter_def bind_p_eq_Inr assert_list_def split: iface.splits)
  with copy_parameters_appends [of rawValue j j'] show ?thesis by blast
qed

lemma on_parameter_unset:
  assumes "on_parameter d j = Inr j'" and "GetOk d ''parameter'' = (value, False)"
  shows "Parameters j' = Parameters j"
  using assms by (simp add: on_parameter_def)

lemma copy_key_cases:
  assumes "copy_key configRaw key Key config = Inr config'"
  shows "(map_of configRaw key = None \<and> config' = config) \<or>
         (\<exists>s. map_of configRaw key = Some (IString s) \<and> config' = config(Key \<mapsto> s))"
  using assms
  by (auto simp: copy_key_def bind_p_eq_Inr assert_string_def split: option.splits iface.splits)

lemma copy_key_dom:
  assumes "copy_key configRaw key Key config = Inr config'"
  shows "dom config' \<subseteq> insert Key (dom config)"
  using copy_key_cases [OF assms] by auto

lemma copy_key_other:
  assumes "copy_key configRaw key Key config = Inr config'" and "K \<noteq> Key"
  shows "config' K = config K"
  using copy_key_cases [OF assms(1)] assms(2) by auto

lemma copy_key_this:
  assumes "copy_key configRaw key Key config = Inr config'" and "config Key = None"
  shows "map_option IString (config' Key) = map_of configRaw key"
  using copy_key_cases [OF assms(1)] assms(2) by auto

lemma copy_parameter_result:
  assumes "copy_parameter v = Inr cfg"
  shows "\<exists>configRaw. v = IMap configRaw
           \<and> map_option IString (cfg ''Type'') = map_of configRaw ''type''
           \<and> map_option IString (cfg ''Name'') = map_of configRaw ''name''
           \<and> map_option IString (cfg ''Description'') = map_of configRaw ''description''
           \<and> map_option IString (cfg ''Default'') = map_of configRaw ''default''
           \<and> dom cfg \<subseteq> {''Type'', ''Name'', ''Description'', ''Default''}"
proof -
  from assms obtain configRaw c1 c2 c3 where raw: "v = IMap configRaw"
      and 1: "copy_key configRaw ''type'' ''Type'' Map.empty = Inr c1"
      and 2: "copy_key configRaw ''name'' ''Name'' c1 = Inr c2"
      and 3: "copy_key configRaw ''description'' ''Description'' c2 = Inr c3"
      and 4: "copy_key configRaw ''default'' ''Default'' c3 = Inr cfg"
    by (auto simp: copy_parameter_def bind_p_eq_Inr assert_map_def split: iface.splits)
  have "cfg ''Type'' = c1 ''Type''"
    using copy_key_other [OF 4, of "''Type''"] copy_key_other [OF 3, of "''Type''"]
      copy_key_other [OF 2, of "''Type''"] by simp
  then have t: "map_option IString (cfg ''Type'') = map_of configRaw ''type''"
    using copy_key_this [OF 1] by simp
  have "c1 ''Name'' = None" "c1 ''Description'' = None" "c1 ''Default'' = None"
    using copy_key_other [OF 1, of "''Name''"] copy_key_other [OF 1, of "''Description''"]
      copy_key_other [OF 1, of "''Default''"] by simp_all
  then have e2: "c2 ''Description'' = None" "c2 ''Default'' = None"
    using copy_key_other [OF 2, of "''Description''"] copy_key_other [OF 2, of "''Default''"]
    by simp_all
  then have e3: "c3 ''Default'' = None"
    using copy_key_other [OF 3, of "''Default''"] by simp
  have "cfg ''Name'' = c2 ''Name''"
    using copy_key_other [OF 4, of "''Name''"] copy_key_other [OF 3, of "''Name''"] by simp
  then have n: "map_option IString (cfg ''Name'') = map_of configRaw ''name''"
    using copy_key_this [OF 2] \<open>c1 ''Name'' = None\<close> by simp
  have "cfg ''Description'' = c3 ''Description''"
    using copy_key_other [OF 4, of "''Description''"] by simp
  then have d: "map_option IString (cfg ''Description'') = map_of configRaw ''description''"
    using copy_key_this [OF 3] e2 by simp
  have f: "map_option IString (cfg ''Default'') = map_of configRaw ''default''"
    using copy_key_this [OF 4] e3 by simp
  have "dom cfg \<subseteq> {''Type'', ''Name'', ''Description'', ''Default''}"
    using copy_key_dom [OF 1] copy_key_dom [OF 2] copy_key_dom [OF 3] copy_key_dom [OF 4]
    by (simp only: dom_empty) blast
  with raw t n d f show ?thesis by blast
qed

lemma new_job_steps:
  assumes "new_job d = Inr j"
  obtains j6 j7 j10 j11 where
    "Permissions j6 = []" "Parameters j6 = []"
    "on_permissions d j6 = Inr j7"
    "Permissions j10 = Permissions j7" "Parameters j10 = Parameters j7"
    "on_parameter d j10 = Inr j11"
    "Permissions j = Permissions j11" "Parameters j = Parameters j11"
proof -
  from assms obtain name j1 j2 j3 j4 j5 j7 j8 j9 j10 j11 j12 where
    s1: "on_string d ''display_name'' (\<lambda>v j. j\<lparr>DisplayName := v\<rparr>)
       \<lparr>Name = name, Description = '''', DisplayName = '''', TriggerRemotelyToken = '''',
        Disabled = False, MasterMergeTriggering = False, Permissions = [],
        Parameters = [], BranchPushTriggering = Map.empty, PrTriggeringGhpr = Map.empty,
        PrTriggeringGhIntegration = Map.empty, Jenkinsfile = Map.empty,
        Configuration = Map.empty\<rparr> = Inr j1"
    and s2: "on_string d ''description'' (\<lambda>v j. j\<lparr>Description := v\<rparr>) j1 = Inr j2"
    and s3: "on_string d ''trigger_remotely_token'' (\<lambda>v j. j\<lparr>TriggerRemotelyToken := v\<rparr>) j2 = Inr j3"
    and s4: "on_bool d ''disabled'' (\<lambda>v j. j\<lparr>Disabled := v\<rparr>) j3 = Inr j4"
    and s5: "on_bool d ''master_merge_triggering'' (\<lambda>v j. j\<lparr>MasterMergeTriggering := v\<rparr>) j4 = Inr j5"
    and s6: "on_permissions d j5 = Inr j7"
    and s7: "on_map d ''configuration'' Configuration (\<lambda>m j. j\<lparr>Configuration := m\<rparr>) j7 = Inr j8"
    and s8: "on_map d ''pr_triggering_ghpr'' PrTriggeringGhpr (\<lambda>m j. j\<lparr>PrTriggeringGhpr := m\<rparr>) j8 = Inr j9"
    and s9: "on_map d ''pr_triggering_gh_integration'' PrTriggeringGhIntegration
               (\<lambda>m j. j\<lparr>PrTriggeringGhIntegration := m\<rparr>) j9 = Inr j10"
    and s10: "on_parameter d j10 = Inr j11"
    and s11: "on_map d ''branch_push_triggering'' BranchPushTriggering
               (\<lambda>m j. j\<lparr>BranchPushTriggering := m\<rparr>) j11 = Inr j12"
    and s12: "on_map d ''jenkinsfile'' Jenkinsfile (\<lambda>m j. j\<lparr>Jenkinsfile := m\<rparr>) j12 = Inr j"
    unfolding new_job_def bind_p_eq_Inr by blast
  have p5: "Permissions j5 = []"
    using on_string_keeps [OF s1, of Permissions] on_string_keeps [OF s2, of Permissions]
      on_string_keeps [OF s3, of Permissions] on_bool_keeps [OF s4, of Permissions]
      on_bool_keeps [OF s5, of Permissions] by simp
  have q5: "Parameters j5 = []"
    using on_string_keeps [OF s1, of Parameters] on_string_keeps [OF s2, of Parameters]
      on_string_keeps [OF s3, of Parameters] on_bool_keeps [OF s4, of Parameters]
      on_bool_keeps [OF s5, of Parameters] by simp
  have p10: "Permissions j10 = Permissions j7"
    using on_map_keeps [OF s7, of Permissions] on_map_keeps [OF s8, of Permissions]
      on_map_keeps [OF s9, of Permissions] by simp
  have q10: "Parameters j10 = Parameters j7"
    using on_map_keeps [OF s7, of Parameters] on_map_keeps [OF s8, of Parameters]
      on_map_keeps [OF s9, of Parameters] by simp
  have p: "Permissions j = Permissions j11"
    using on_map_keeps [OF s11, of Permissions] on_map_keeps [OF s12, of Permissions] by simp
  have q: "Parameters j = Parameters j11"
    using on_map_keeps [OF s11, of Parameters] on_map_keeps [OF s12, of Parameters] by simp
  from p5 q5 s6 p10 q10 s10 p q show ?thesis by (rule that)
qed

lemma new_job_Parameters:
  assumes "new_job d = Inr j" and "GetOk d ''parameter'' = (value, b)"
  shows "if b then \<exists>rawValue. value = IList rawValue \<and>
                     list_all2 (\<lambda>v cfg. copy_parameter v = Inr cfg) rawValue (Parameters j)
         else Parameters j = []"
proof -
  from assms(1) obtain j6 j7 j10 j11 where
      "Parameters j6 = []" "on_permissions d j6 = Inr j7"
      "Parameters j10 = Parameters j7" and p: "on_parameter d j10 = Inr j11"
      and "Parameters j = Parameters j11"
    by (rule new_job_steps)
  then have e: "Parameters j10 = []" and j: "Parameters j = Parameters j11"
    by (simp_all add: on_permissions_Parameters)
  show ?thesis
  proof (cases b)
    case True
    with on_parameter_set [OF p] assms(2) e j show ?thesis by auto
  next
    case False
    with on_parameter_unset [OF p] assms(2) e j show ?thesis by auto
  qed
qed

lemma on_string_unset: "GetOk d key = (v, False) \<Longrightarrow> on_string d key upd j = Inr j"
  by (simp add: on_string_def)

lemma on_bool_unset: "GetOk d key = (v, False) \<Longrightarrow> on_bool d key upd j = Inr j"
  by (simp add: on_bool_def)

lemma on_map_unset: "GetOk d key = (v, False) \<Longrightarrow> on_map d key field upd j = Inr j"
  by (simp add: on_map_def)

lemma on_permissions_string:
  "GetOk d ''permissions'' = (IString s, True) \<Longrightarrow>
     on_permissions d j = Inr (j\<lparr>Permissions := Permissions j @ Split s '',''\<rparr>)"
  by (simp add: on_permissions_def assert_string_def append_permissions)

lemma on_parameter_list:
  "GetOk d ''parameter'' = (IList rawValue, True) \<Longrightarrow>
     on_parameter d j = copy_parameters rawValue j"
  by (simp add: on_parameter_def assert_list_def)

lemma new_job_example: "new_job example_data = Inr example_job"
proof -
  have n: "assert_string (Get example_data ''name'') = Inr ''job''"
    by (simp add: assert_string_def example_data_def)
  have u: "GetOk example_data ''display_name'' = (INil, False)"
      "GetOk example_data ''description'' = (INil, False)"
      "GetOk example_data ''trigger_remotely_token'' = (INil, False)"
      "GetOk example_data ''disabled'' = (INil, False)"
      "GetOk example_data ''master_merge_triggering'' = (INil, False)"
      "GetOk example_data ''configuration'' = (INil, False)"
      "GetOk example_data ''pr_triggering_ghpr'' = (INil, False)"
      "GetOk example_data ''pr_triggering_gh_integration'' = (INil, False)"
      "GetOk example_data ''branch_push_triggering'' = (INil, False)"
      "GetOk example_data ''jenkinsfile'' = (INil, False)"
    by (simp_all add: example_data_def)
  have p: "GetOk example_data ''permissions'' = (IString ''a,b,,c'', True)"
    by (simp add: example_data_def)
  have q: "GetOk example_data ''parameter'' =
      (IList [IMap [(''type'', IString ''string''), (''name'', IString ''BRANCH'')],
              IMap [(''name'', IString ''DRY_RUN''), (''default'', IString '''')]], True)"
    by (simp add: example_data_def)
  have s: "Split ''a,b,,c'' '','' = [''a'', ''b'', '''', ''c'']"
    by (simp add: Split_comma_spec)
  have c1: "copy_parameter (IMap [(''type'', IString ''string''), (''name'', IString ''BRANCH'')])
      = Inr [''Type'' \<mapsto> ''string'', ''Name'' \<mapsto> ''BRANCH'']"
    by (simp add: copy_parameter_def copy_key_def assert_map_def assert_string_def)
  have c2: "copy_parameter (IMap [(''name'', IString ''DRY_RUN''), (''default'', IString '''')])
      = Inr [''Name'' \<mapsto> ''DRY_RUN'', ''Default'' \<mapsto> '''']"
    by (simp add: copy_parameter_def copy_key_def assert_map_def assert_string_def)
  show ?thesis
    unfolding new_job_def n bind_p_Inr
      u [THEN on_string_unset] u [THEN on_bool_unset] u [THEN on_map_unset]
      p [THEN on_permissions_string] s q [THEN on_parameter_list]
      copy_parameters.simps c1 c2
    by (simp add: example_job_def)
qed

text \<open>
  Claim C7. When \<open>GetOk\<close> reports the key \<open>permissions\<close> as set and the job is
  built, the value is a string and \<open>Permissions\<close> is that string cut at every comma
  by \<open>strings.Split\<close>, which is the specification's list of pieces: in order, with
  empty pieces and repeated pieces kept. The text \<open>a,b,,c\<close> gives the four pieces
  \<open>a\<close>, \<open>b\<close>, the empty string and \<open>c\<close>.
\<close>
theorem permissions_split_on_comma:
  "(new_job d = Inr j \<and> GetOk d ''permissions'' = (value, True) \<longrightarrow>
      (\<exists>s. value = IString s \<and> Permissions j = Split s '',''
           \<and> Permissions j = spec_comma_pieces s))
   \<and> Split ''a,b,,c'' '','' = [''a'', ''b'', '''', ''c'']"
proof -
  have "\<exists>s. value = IString s \<and> Permissions j = Split s '',''
           \<and> Permissions j = spec_comma_pieces s"
    if nj: "new_job d = Inr j" and ok: "GetOk d ''permissions'' = (value, True)"
  proof -
    from nj obtain j6 j7 j10 j11 where
        "Permissions j6 = []" "on_permissions d j6 = Inr j7"
        "Permissions j10 = Permissions j7" "on_parameter d j10 = Inr j11"
        "Permissions j = Permissions j11"
      by (rule new_job_steps)
    moreover from this have "Permissions j11 = Permissions j10"
      by (simp add: on_parameter_Permissions)
    moreover from \<open>on_permissions d j6 = Inr j7\<close> ok
    obtain s where "value = IString s" "Permissions j7 = Permissions j6 @ Split s '',''"
      using on_permissions_set by blast
    ultimately have "value = IString s \<and> Permissions j = Split s '',''" by simp
    then show ?thesis by (simp add: Split_comma_spec)
  qed
  moreover have "Split ''a,b,,c'' '','' = [''a'', ''b'', '''', ''c'']"
    by (simp add: Split_comma_spec)
  ultimately show ?thesis by blast
qed

theorem permissions_split_on_comma_witness:
  "new_job example_data = Inr example_job
   \<and> GetOk example_data ''permissions'' = (IString ''a,b,,c'', True)
   \<and> Permissions example_job = Split ''a,b,,c'' '',''
   \<and> Permissions example_job = [''a'', ''b'', '''', ''c'']"
proof -
  have 2: "GetOk example_data ''permissions'' = (IString ''a,b,,c'', True)"
    by (simp add: example_data_def)
  from permissions_split_on_comma [of example_data example_job "IString ''a,b,,c''"]
    new_job_example 2
  show ?thesis by simp
qed

text \<open>
  Claim C8. When \<open>GetOk\<close> reports the key \<open>parameter\<close> as set and the job is built,
  the value is a list, \<open>Parameters\<close> has one record for each element, in the same
  order, and the record at position \<open>i\<close> has an entry under \<open>Type\<close>, \<open>Name\<close>,
  \<open>Description\<close>, \<open>Default\<close> exactly when element \<open>i\<close> has one under \<open>type\<close>,
  \<open>name\<close>, \<open>description\<close>, \<open>default\<close>, with the same string: a sub-key that is
  missing in the input is missing in the output.
\<close>
theorem parameter_records_copied:
  assumes "new_job d = Inr j" and "GetOk d ''parameter'' = (value, True)"
  shows "\<exists>rawValue. value = IList rawValue \<and> length (Parameters j) = length rawValue \<and>
     (\<forall>i < length rawValue. \<exists>configRaw. rawValue ! i = IMap configRaw
        \<and> map_option IString ((Parameters j ! i) ''Type'') = map_of configRaw ''type''
        \<and> map_option IString ((Parameters j ! i) ''Name'') = map_of configRaw ''name''
        \<and> map_option IString ((Parameters j ! i) ''Description'')
            = map_of configRaw ''description''
        \<and> map_option IString ((Parameters j ! i) ''Default'') = map_of configRaw ''default'')"
proof -
  from new_job_Parameters [OF assms] obtain rawValue where v: "value = IList rawValue"
      and l: "list_all2 (\<lambda>v cfg. copy_parameter v = Inr cfg) rawValue (Parameters j)"
    by auto
  from l have len: "length (Parameters j) = length rawValue"
    by (simp add: list_all2_lengthD)
  have "\<exists>configRaw. rawValue ! i = IMap configRaw
        \<and> map_option IString ((Parameters j ! i) ''Type'') = map_of configRaw ''type''
        \<and> map_option IString ((Parameters j ! i) ''Name'') = map_of configRaw ''name''
        \<and> map_option IString ((Parameters j ! i) ''Description'')
            = map_of configRaw ''description''
        \<and> map_option IString ((Parameters j ! i) ''Default'') = map_of configRaw ''default''"
    if "i < length rawValue" for i
  proof -
    from l that have "copy_parameter (rawValue ! i) = Inr (Parameters j ! i)"
      by (rule list_all2_nthD)
    from copy_parameter_result [OF this] show ?thesis by blast
  qed
  with v len show ?thesis by blast
qed

theorem parameter_records_copied_witness:
  "\<exists>rawValue.
      IList [IMap [(''type'', IString ''string''), (''name'', IString ''BRANCH'')],
             IMap [(''name'', IString ''DRY_RUN''), (''default'', IString '''')]]
        = IList rawValue
    \<and> length (Parameters example_job) = length rawValue
    \<and> (\<forall>i < length rawValue. \<exists>configRaw. rawValue ! i = IMap configRaw
        \<and> map_option IString ((Parameters example_job ! i) ''Type'')
            = map_of configRaw ''type''
        \<and> map_option IString ((Parameters example_job ! i) ''Name'')
            = map_of configRaw ''name''
        \<and> map_option IString ((Parameters example_job ! i) ''Description'')
            = map_of configRaw ''description''
        \<and> map_option IString ((Parameters example_job ! i) ''Default'')
            = map_of configRaw ''default'')"
proof -
  have 2: "GetOk example_data ''parameter'' =
      (IList [IMap [(''type'', IString ''string''), (''name'', IString ''BRANCH'')],
              IMap [(''name'', IString ''DRY_RUN''), (''default'', IString '''')]], True)"
    by (simp add: example_data_def)
  show ?thesis by (rule parameter_records_copied [OF new_job_example 2])
qed

text \<open>
  Claim C9. On a template that is not \<open>nil\<close>: when parsing \<open>data\<close> fails, BindTo
  returns the empty string and the parser's error; when parsing succeeds and executing
  the template on the job fails, BindTo returns the empty string and that error, whatever
  was written to the buffer; and BindTo returns a text with a \<open>nil\<close> error exactly
  when parsing succeeds, the job is built and execution writes that text without error.
\<close>
theorem bind_returns_document_or_error:
  "(Parse E (data t) = Inl err \<longrightarrow> BindTo E (Some t) d = Inr ('''', Some err))
   \<and> (Parse E (data t) = Inr tpl \<and> new_job d = Inr j \<and> Execute E tpl j = (buffer, Some err)
        \<longrightarrow> BindTo E (Some t) d = Inr ('''', Some err))
   \<and> (BindTo E (Some t) d = Inr (xml, None) \<longleftrightarrow>
        (\<exists>tpl j. Parse E (data t) = Inr tpl \<and> new_job d = Inr j
                 \<and> Execute E tpl j = (xml, None)))"
proof (intro conjI impI)
  assume "Parse E (data t) = Inl err"
  then show "BindTo E (Some t) d = Inr ('''', Some err)"
    by (simp add: BindTo_def)
next
  assume "Parse E (data t) = Inr tpl \<and> new_job d = Inr j \<and> Execute E tpl j = (buffer, Some err)"
  then show "BindTo E (Some t) d = Inr ('''', Some err)"
    by (simp add: BindTo_def)
next
  show "BindTo E (Some t) d = Inr (xml, None) \<longleftrightarrow>
        (\<exists>tpl j. Parse E (data t) = Inr tpl \<and> new_job d = Inr j
                 \<and> Execute E tpl j = (xml, None))"
  proof (cases "Parse E (data t)")
    case (Inl e)
    then show ?thesis by (simp add: BindTo_def)
  next
    case (Inr tpl)
    show ?thesis
    proof (cases "new_job d")
      case (Inl p)
      with Inr show ?thesis by (simp add: BindTo_def)
    next
      case j: (Inr j)
      obtain buf e where ex: "Execute E tpl j = (buf, e)" by (cases "Execute E tpl j")
      with Inr j show ?thesis by (cases e) (auto simp: BindTo_def)
    qed
  qed
qed

theorem bind_returns_document_or_error_witness:
  "BindTo example_engine (Some \<lparr>source = '''', data = ''{{'', hash = ''''\<rparr>) example_data
     = Inr ('''', Some (External ''unclosed action''))
   \<and> BindTo example_engine (Some \<lparr>source = '''', data = ''{{.Missing}}'', hash = ''''\<rparr>)
       example_data
     = Inr ('''', Some (External ''cannot evaluate field Missing''))
   \<and> BindTo example_engine (Some \<lparr>source = '''', data = ''<project/>'', hash = ''''\<rparr>)
       example_data
     = Inr (''<project/>'', None)"
proof -
  have 1: "Parse example_engine (data \<lparr>source = '''', data = ''{{'', hash = ''''\<rparr>)
      = Inl (External ''unclosed action'')"
    by (simp add: example_engine_def)
  have 2: "Parse example_engine (data \<lparr>source = '''', data = ''{{.Missing}}'', hash = ''''\<rparr>)
        = Inr ''{{.Missing}}''
      \<and> new_job example_data = Inr example_job
      \<and> Execute example_engine ''{{.Missing}}'' example_job
        = (''<'', Some (External ''cannot evaluate field Missing''))"
    by (simp add: example_engine_def new_job_example)
  have 3: "\<exists>tpl j. Parse example_engine
          (data \<lparr>source = '''', data = ''<project/>'', hash = ''''\<rparr>) = Inr tpl
      \<and> new_job example_data = Inr j
      \<and> Execute example_engine tpl j = (''<project/>'', None)"
    by (simp add: example_engine_def new_job_example)
  from bind_returns_document_or_error
      [of example_engine "\<lparr>source = '''', data = ''{{'', hash = ''''\<rparr>"
          "External ''unclosed action''" example_data] 1
  have a: "BindTo example_engine (Some \<lparr>source = '''', data = ''{{'', hash = ''''\<rparr>) example_data
     = Inr ('''', Some (External ''unclosed action''))"
    by blast
  from bind_returns_document_or_error
      [of example_engine "\<lparr>source = '''', data = ''{{.Missing}}'', hash = ''''\<rparr>"
          "External ''cannot evaluate field Missing''" example_data "''{{.Missing}}''"
          example_job "''<''"] 2
  have b: "BindTo example_engine (Some \<lparr>source = '''', data = ''{{.Missing}}'', hash = ''''\<rparr>)
       example_data
     = Inr ('''', Some (External ''cannot evaluate field Missing''))"
    by blast
  from bind_returns_document_or_error
      [of example_engine "\<lparr>source = '''', data = ''<project/>'', hash = ''''\<rparr>"
          _ example_data _ _ _ "''<project/>''"] 3
  have c: "BindTo example_engine (Some \<lparr>source = '''', data = ''<project/>'', hash = ''''\<rparr>)
       example_data
     = Inr (''<project/>'', None)"
    by blast
  from a b c show ?thesis by blast
qed

text \<open>
  Claim C10. In every job that \<open>new_job\<close> builds, the keys of each record of
  \<open>Parameters\<close> are among \<open>Type\<close>, \<open>Name\<close>, \<open>Description\<close> and \<open>Default\<close>, so
  none of the lower-case names \<open>type\<close>, \<open>name\<close>, \<open>description\<close>, \<open>default\<close> is
  a key; and a string found under \<open>type\<close>, \<open>name\<close>, \<open>description\<close> or
  \<open>default\<close> in element \<open>i\<close> of the input list is stored under \<open>Type\<close>,
  \<open>Name\<close>, \<open>Description\<close> or \<open>Default\<close> in record \<open>i\<close>.
\<close>
theorem parameter_keys_capitalized:
  assumes "new_job d = Inr j"
  shows "(\<forall>config \<in> set (Parameters j).
            dom config \<subseteq> {''Type'', ''Name'', ''Description'', ''Default''}
            \<and> config ''type'' = None \<and> config ''name'' = None
            \<and> config ''description'' = None \<and> config ''default'' = None)
     \<and> (\<forall>rawValue i configRaw s.
            GetOk d ''parameter'' = (IList rawValue, True) \<and> i < length rawValue
            \<and> rawValue ! i = IMap configRaw \<longrightarrow>
              (map_of configRaw ''type'' = Some (IString s)
                 \<longrightarrow> (Parameters j ! i) ''Type'' = Some s)
            \<and> (map_of configRaw ''name'' = Some (IString s)
                 \<longrightarrow> (Parameters j ! i) ''Name'' = Some s)
            \<and> (map_of configRaw ''description'' = Some (IString s)
                 \<longrightarrow> (Parameters j ! i) ''Description'' = Some s)
            \<and> (map_of configRaw ''default'' = Some (IString s)
                 \<longrightarrow> (Parameters j ! i) ''Default'' = Some s))"
proof -
  obtain v0 b where g: "GetOk d ''parameter'' = (v0, b)"
    by (cases "GetOk d ''parameter''")
  note P = new_job_Parameters [OF assms g]
  have keys: "dom config \<subseteq> {''Type'', ''Name'', ''Description'', ''Default''}
      \<and> config ''type'' = None \<and> config ''name'' = None
      \<and> config ''description'' = None \<and> config ''default'' = None"
    if "config \<in> set (Parameters j)" for config
  proof -
    from that P obtain rawValue where
        l: "list_all2 (\<lambda>v cfg. copy_parameter v = Inr cfg) rawValue (Parameters j)"
      by (cases b) auto
    from that obtain i where i: "i < length (Parameters j)" "Parameters j ! i = config"
      by (auto simp: in_set_conv_nth)
    with l have "copy_parameter (rawValue ! i) = Inr config"
      by (auto simp: list_all2_conv_all_nth)
    from copy_parameter_result [OF this]
    have d: "dom config \<subseteq> {''Type'', ''Name'', ''Description'', ''Default''}" by blast
    have "''type'' \<notin> dom config" "''name'' \<notin> dom config"
        "''description'' \<notin> dom config" "''default'' \<notin> dom config"
      using d by auto
    with d show ?thesis by (simp only: domIff simp_thms)
  qed
  have caps: "(map_of configRaw ''type'' = Some (IString s)
                 \<longrightarrow> (Parameters j ! i) ''Type'' = Some s)
            \<and> (map_of configRaw ''name'' = Some (IString s)
                 \<longrightarrow> (Parameters j ! i) ''Name'' = Some s)
            \<and> (map_of configRaw ''description'' = Some (IString s)
                 \<longrightarrow> (Parameters j ! i) ''Description'' = Some s)
            \<and> (map_of configRaw ''default'' = Some (IString s)
                 \<longrightarrow> (Parameters j ! i) ''Default'' = Some s)"
    if h: "GetOk d ''parameter'' = (IList rawValue, True) \<and> i < length rawValue
            \<and> rawValue ! i = IMap configRaw" for rawValue i configRaw s
  proof -
    from h g P have
        l: "list_all2 (\<lambda>v cfg. copy_parameter v = Inr cfg) rawValue (Parameters j)"
      by auto
    with h have "copy_parameter (IMap configRaw) = Inr (Parameters j ! i)"
      by (auto simp: list_all2_conv_all_nth)
    from copy_parameter_result [OF this] show ?thesis by auto
  qed
  from keys caps show ?thesis by blast
qed

theorem parameter_keys_capitalized_witness:
  "dom (Parameters example_job ! 0) \<subseteq> {''Type'', ''Name'', ''Description'', ''Default''}
   \<and> (Parameters example_job ! 0) ''type'' = None
   \<and> (Parameters example_job ! 0) ''Type'' = Some ''string''
   \<and> (Parameters example_job ! 1) ''Default'' = Some ''''"
proof -
  note T = parameter_keys_capitalized [OF new_job_example]
  have m: "Parameters example_job ! 0 \<in> set (Parameters example_job)"
    by (simp add: example_job_def)
  have g: "GetOk example_data ''parameter'' =
      (IList [IMap [(''type'', IString ''string''), (''name'', IString ''BRANCH'')],
              IMap [(''name'', IString ''DRY_RUN''), (''default'', IString '''')]], True)"
    by (simp add: example_data_def)
  from T m have a: "dom (Parameters example_job ! 0)
        \<subseteq> {''Type'', ''Name'', ''Description'', ''Default''}
      \<and> (Parameters example_job ! 0) ''type'' = None"
    by blast
  from T [THEN conjunct2, rule_format,
      of "[IMap [(''type'', IString ''string''), (''name'', IString ''BRANCH'')],
           IMap [(''name'', IString ''DRY_RUN''), (''default'', IString '''')]]"
         0 "[(''type'', IString ''string''), (''name'', IString ''BRANCH'')]" "''string''"] g
  have b: "(Parameters example_job ! 0) ''Type'' = Some ''string''"
    by simp
  from T [THEN conjunct2, rule_format,
      of "[IMap [(''type'', IString ''string''), (''name'', IString ''BRANCH'')],
           IMap [(''name'', IString ''DRY_RUN''), (''default'', IString '''')]]"
         1 "[(''name'', IString ''DRY_RUN''), (''default'', IString '''')]" "''''"] g
  have c: "(Parameters example_job ! 1) ''Default'' = Some ''''"
    by simp
  from a b c show ?thesis by blast
qed

end
